theory Spec2Isabelle
  imports Main "HOL-Library.AList" "HOL-Library.Char_ord" "HOL-Library.List_Lexorder"
begin

section \<open>JSON values and Python dictionaries\<close>

text \<open>
  The value that \<open>json.loads\<close> returns. A JSON object is a Python dict: an association
  list in insertion order. Numbers are integers here; the context tables hold strings,
  booleans and objects only.
\<close>

datatype json =
    JNull
  | JBool bool
  | JNum int
  | JStr string
  | JArr "json list"
  | JObj "(string \<times> json) list"

text \<open>
  A Python dict with string keys. \<open>k in d\<close> is \<open>dict_contains\<close>, \<open>d[k]\<close> is
  \<open>map_of d k\<close> (where \<open>None\<close> stands for KeyError), \<open>d[k] = v\<close> is \<open>dict_set\<close>:
  an existing key keeps its position, a new key goes to the end.
\<close>

type_synonym 'v dict = "(string \<times> 'v) list"

definition dict_keys :: "'v dict \<Rightarrow> string list" where
  "dict_keys d = map fst d"

definition dict_contains :: "'v dict \<Rightarrow> string \<Rightarrow> bool" where
  "dict_contains d k = (k \<in> set (dict_keys d))"

definition dict_set :: "'v dict \<Rightarrow> string \<Rightarrow> 'v \<Rightarrow> 'v dict" where
  "dict_set d k v = AList.update k v d"

text \<open>Python's truth value of a JSON value, as \<open>if v["@prefix"]:\<close> tests it.\<close>

fun py_truthy :: "json \<Rightarrow> bool" where
  "py_truthy JNull = False"
| "py_truthy (JBool b) = b"
| "py_truthy (JNum n) = (n \<noteq> 0)"
| "py_truthy (JStr s) = (s \<noteq> [])"
| "py_truthy (JArr xs) = (xs \<noteq> [])"
| "py_truthy (JObj kvs) = (kvs \<noteq> [])"

section \<open>context.py\<close>

text \<open>
  The two generated context tables (\<open>internal_context.py\<close>, \<open>external_context.py\<close>) are
  parameters: \<open>contxt\<close> stands for \<open>get_jsonld_context()["@context"]\<close> and
  \<open>contxt_external\<close> for \<open>get_external_jsonld_context()["@context"]\<close>, both JSON objects.
\<close>

definition SSSOM_BUILT_IN_PREFIXES :: "string list" where
  "SSSOM_BUILT_IN_PREFIXES = [''sssom'', ''owl'', ''rdf'', ''rdfs'', ''skos'']"

text \<open>Warnings sent to \<open>logging.warning\<close>, with the values their message interpolates.\<close>

datatype log_record =
    BuiltInDiffers string string string
      \<comment> \<open>Built-in prefix k is specified (prefix_map[k]) but differs from default (builtinmap[k])\<close>
  | AlreadyInPrefixMap string json string
      \<comment> \<open>key is already in prefix map (prefix_map[key], but with a different value than v\<close>

subsection \<open>get_built_in_prefix_map\<close>

text \<open>One pass of the body of \<open>for key in contxt["@context"]\<close>.\<close>

definition built_in_step :: "json dict \<Rightarrow> string \<Rightarrow> string dict \<Rightarrow> string dict" where
  "built_in_step contxt key prefix_map =
     (if key \<in> set SSSOM_BUILT_IN_PREFIXES then
        (case map_of contxt key of
           Some (JStr v) \<Rightarrow> dict_set prefix_map key v
         | _ \<Rightarrow> prefix_map)
      else prefix_map)"

fun built_in_loop :: "json dict \<Rightarrow> string list \<Rightarrow> string dict \<Rightarrow> string dict" where
  "built_in_loop contxt [] prefix_map = prefix_map"
| "built_in_loop contxt (key # keys) prefix_map =
     built_in_loop contxt keys (built_in_step contxt key prefix_map)"

definition get_built_in_prefix_map :: "json dict \<Rightarrow> string dict" where
  "get_built_in_prefix_map contxt = built_in_loop contxt (dict_keys contxt) []"

subsection \<open>add_built_in_prefixes_to_prefix_map, on values\<close>

text \<open>
  The loop \<open>for k, v in builtinmap.items()\<close> with the dict \<open>prefix_map\<close> and the log as
  its state. \<open>builtinmap[k]\<close> is the \<open>v\<close> of the item.
\<close>

fun add_loop :: "(string \<times> string) list \<Rightarrow> string dict \<Rightarrow> log_record list
    \<Rightarrow> string dict \<times> log_record list" where
  "add_loop [] prefix_map log = (prefix_map, log)"
| "add_loop ((k, v) # items) prefix_map log =
     (case map_of prefix_map k of
        None \<Rightarrow> add_loop items (dict_set prefix_map k v) log
      | Some u \<Rightarrow>
          if v \<noteq> u then add_loop items prefix_map (log @ [BuiltInDiffers k u v])
          else add_loop items prefix_map log)"

text \<open>
  The result and the warnings logged. \<open>not prefix_map\<close> holds for \<open>None\<close> and for the
  empty dict.
\<close>

definition add_built_in_prefixes_to_prefix_map ::
    "json dict \<Rightarrow> string dict option \<Rightarrow> string dict \<times> log_record list" where
  "add_built_in_prefixes_to_prefix_map contxt prefix_map =
     (let builtinmap = get_built_in_prefix_map contxt in
      case prefix_map of
        None \<Rightarrow> (builtinmap, [])
      | Some pm \<Rightarrow> if pm = [] then (builtinmap, []) else add_loop builtinmap pm [])"

subsection \<open>get_default_metadata\<close>

record Metadata =
  prefix_map :: "json dict"
  metadata :: "json dict"

text \<open>First loop: the entries of the built-in context that contribute a prefix.\<close>

definition internal_step :: "json dict \<Rightarrow> string \<Rightarrow> json dict \<Rightarrow> json dict" where
  "internal_step contxt key pm =
     (case map_of contxt key of
        Some (JStr v) \<Rightarrow> dict_set pm key (JStr v)
      | Some (JObj v) \<Rightarrow>
          (case (map_of v ''@id'', map_of v ''@prefix'') of
             (Some i, Some p) \<Rightarrow> if py_truthy p then dict_set pm key i else pm
           | _ \<Rightarrow> pm)
      | _ \<Rightarrow> pm)"

fun internal_loop :: "json dict \<Rightarrow> string list \<Rightarrow> json dict \<Rightarrow> json dict" where
  "internal_loop contxt [] pm = pm"
| "internal_loop contxt (key # keys) pm =
     internal_loop contxt keys (internal_step contxt key pm)"

text \<open>Second loop: the external context fills the gaps and warns on a conflict.\<close>

definition external_step :: "json dict \<Rightarrow> string \<Rightarrow> json dict \<times> log_record list
    \<Rightarrow> json dict \<times> log_record list" where
  "external_step contxt_external key st =
     (case map_of contxt_external key of
        Some (JStr v) \<Rightarrow>
          (case map_of (fst st) key of
             None \<Rightarrow> (dict_set (fst st) key (JStr v), snd st)
           | Some u \<Rightarrow>
               if u \<noteq> JStr v then (fst st, snd st @ [AlreadyInPrefixMap key u v])
               else st)
      | _ \<Rightarrow> st)"

fun external_loop :: "json dict \<Rightarrow> string list \<Rightarrow> json dict \<times> log_record list
    \<Rightarrow> json dict \<times> log_record list" where
  "external_loop contxt_external [] st = st"
| "external_loop contxt_external (key # keys) st =
     external_loop contxt_external keys (external_step contxt_external key st)"


text \<open>The value of \<open>prefix_map\<close> between the two loops.\<close>

definition built_in_context_prefix_map :: "json dict \<Rightarrow> json dict" where
  "built_in_context_prefix_map contxt = internal_loop contxt (dict_keys contxt) []"

definition get_default_metadata ::
    "json dict \<Rightarrow> json dict \<Rightarrow> Metadata \<times> log_record list" where
  "get_default_metadata contxt contxt_external =
     (let pm0 = built_in_context_prefix_map contxt;
          st = external_loop contxt_external (dict_keys contxt_external) (pm0, [])
      in (\<lparr>prefix_map = fst st, metadata = []\<rparr>, snd st))"

subsection \<open>add_built_in_prefixes_to_prefix_map, on a store of dict objects\<close>

text \<open>
  The function writes \<open>prefix_map[k] = v\<close> into the dict it was given and returns that
  dict, or returns the dict that \<open>get_built_in_prefix_map\<close> has just built. Which object
  is which is explicit here: a store lists the dict objects, an address is an index in it.
\<close>

type_synonym addr = nat
type_synonym store = "string dict list"

definition alloc :: "store \<Rightarrow> string dict \<Rightarrow> addr \<times> store" where
  "alloc s d = (length s, s @ [d])"

fun add_loop_store :: "(string \<times> string) list \<Rightarrow> addr \<Rightarrow> store \<Rightarrow> log_record list
    \<Rightarrow> store \<times> log_record list" where
  "add_loop_store [] a s log = (s, log)"
| "add_loop_store ((k, v) # items) a s log =
     (case map_of (s ! a) k of
        None \<Rightarrow> add_loop_store items a (s[a := dict_set (s ! a) k v]) log
      | Some u \<Rightarrow>
          if v \<noteq> u then add_loop_store items a s (log @ [BuiltInDiffers k u v])
          else add_loop_store items a s log)"

text \<open>Returns the address of the returned dict, the store after the call, and the log.\<close>

definition add_built_in_prefixes_to_prefix_map_store ::
    "json dict \<Rightarrow> addr option \<Rightarrow> store \<Rightarrow> addr \<times> store \<times> log_record list" where
  "add_built_in_prefixes_to_prefix_map_store contxt p s =
     (let (builtinmap, s1) = alloc s (get_built_in_prefix_map contxt) in
      case p of
        None \<Rightarrow> (builtinmap, s1, [])
      | Some a \<Rightarrow>
          if s1 ! a = [] then (builtinmap, s1, [])
          else (let (s2, log) = add_loop_store (s1 ! builtinmap) a s1 [] in (a, s2, log)))"

section \<open>datamodel_util.py\<close>

subsection \<open>EntityPair\<close>

text \<open>
  Modelled from the spec: class \<open>Entity\<close> of \<open>sssom.sssom_datamodel\<close>, of which only the
  identifier is read here; two entities with different identifiers are different.
\<close>

record Entity =
  id' :: string

record EntityPair =
  subject_entity :: Entity
  object_entity :: Entity

text \<open>
  The tuple \<open>t\<close> that \<open>__hash__\<close> builds. \<open>\<le>\<close> on strings is the lexicographic order by
  character code, as Python's is.
\<close>

definition hash_tuple :: "EntityPair \<Rightarrow> string \<times> string" where
  "hash_tuple self =
     (if id' (subject_entity self) \<le> id' (object_entity self)
      then (id' (subject_entity self), id' (object_entity self))
      else (id' (object_entity self), id' (subject_entity self)))"

text \<open>\<open>__hash__\<close>, with Python's built-in \<open>hash\<close> on tuples of strings as a parameter.\<close>

definition EntityPair_hash :: "(string \<times> string \<Rightarrow> int) \<Rightarrow> EntityPair \<Rightarrow> int" where
  "EntityPair_hash py_hash self = py_hash (hash_tuple self)"

text \<open>
  \<open>__eq__\<close> is not written in the class: \<open>@dataclass\<close> generates it, and it compares the
  tuples of the fields in their declared order.
\<close>

definition EntityPair_eq :: "EntityPair \<Rightarrow> EntityPair \<Rightarrow> bool" where
  "EntityPair_eq self other =
     ((subject_entity self, object_entity self) = (subject_entity other, object_entity other))"

subsection \<open>MappingSetDataFrame\<close>

text \<open>
  Modelled from the spec: Mapping, a row of the data frame (the pandas type is not part of
  the repository): the three identifier columns and the other columns by name. Two rows
  are the same row when all their fields are equal.
\<close>

record Mapping =
  subject_id :: string
  predicate_id :: string
  object_id :: string
  other_fields :: "(string \<times> string) list"

text \<open>The dataclass \<open>MappingSetDataFrame\<close>: the rows, the prefix map and the metadata.\<close>

record MappingSetDataFrame =
  df :: "Mapping list"
  prefixmap :: "string dict"
  metadata' :: "(string \<times> string) list option"

text \<open>
  Modelled from the spec: \<open>UndefinedPrefixError\<close>, which names the prefixes that are
  referenced and not bound.
\<close>

datatype error = UndefinedPrefixError "string list"

text \<open>
  Modelled from the spec: an Entity is a compact identifier \<open>prefix:local\<close> or an absolute
  URI, recognised here by \<open>://\<close> after its scheme.
\<close>

definition is_absolute_uri :: "string \<Rightarrow> bool" where
  "is_absolute_uri s = (take 3 (dropWhile (\<lambda>c. c \<noteq> CHR '':'') s) = ''://'')"

text \<open>
  Modelled from the spec: the prefix component of a compact identifier, which is what
  stands before its first separator; an absolute URI and a string without separator have
  none.
\<close>

definition curie_prefix :: "string \<Rightarrow> string option" where
  "curie_prefix s =
     (if CHR '':'' \<in> set s \<and> \<not> is_absolute_uri s
      then Some (takeWhile (\<lambda>c. c \<noteq> CHR '':'') s) else None)"

text \<open>
  Modelled from the spec: \<open>usedPrefixes\<close> (IdentifierResolver), the prefixes referenced in
  the default identifier columns subject, predicate and object, each listed once.
\<close>

definition usedPrefixes :: "MappingSetDataFrame \<Rightarrow> string list" where
  "usedPrefixes t =
     remdups (List.map_filter curie_prefix
       (concat (map (\<lambda>r. [subject_id r, predicate_id r, object_id r]) (df t))))"

text \<open>
  Modelled from the spec: \<open>pruneToUsed\<close> (PrefixRegistry). It keeps the entries whose key
  is used or built-in; when strict, a used prefix without an entry is an error that names
  all of them.
\<close>

definition pruneToUsed :: "string dict \<Rightarrow> string list \<Rightarrow> bool \<Rightarrow> error + string dict" where
  "pruneToUsed prefixMap used strict =
     (let missing = filter (\<lambda>p. \<not> dict_contains prefixMap p) used in
      if strict \<and> missing \<noteq> [] then Inl (UndefinedPrefixError missing)
      else Inr (filter (\<lambda>(k, v). k \<in> set used \<or> k \<in> set SSSOM_BUILT_IN_PREFIXES) prefixMap))"

text \<open>
  Modelled from the spec: \<open>cleanPrefixMap\<close> (MappingTable), the method missing from
  \<open>MappingSetDataFrame\<close>. It prunes the bound prefix map with \<open>pruneToUsed\<close> on the
  prefixes the table uses, and on an error leaves the table as it is. On one point the
  tests of the repository say more than the spec, and they are followed: after a non-strict
  call the used prefixes that the map did not bind are keys of the map
  (\<open>test_clean_prefix_map_not_strict\<close>: \<open>x1\<close>, \<open>y1\<close>, \<open>z1\<close> are absent before the call and
  present after it). The URI such a prefix is bound to is stated nowhere and is the
  parameter \<open>unknown_uri\<close>. The function returns the error raised, if any, and the table
  after the call.
\<close>

definition cleanPrefixMap :: "(string \<Rightarrow> string) \<Rightarrow> bool \<Rightarrow> MappingSetDataFrame
    \<Rightarrow> error option \<times> MappingSetDataFrame" where
  "cleanPrefixMap unknown_uri strict self =
     (case pruneToUsed (prefixmap self) (usedPrefixes self) strict of
        Inl e \<Rightarrow> (Some e, self)
      | Inr pm \<Rightarrow>
          (None, self\<lparr>prefixmap := pm @ map (\<lambda>p. (p, unknown_uri p))
             (filter (\<lambda>p. \<not> dict_contains (prefixmap self) p) (usedPrefixes self))\<rparr>))"

text \<open>
  Modelled from the spec: \<open>removeMappings\<close> (MappingTable), the method missing from
  \<open>MappingSetDataFrame\<close>. It drops every row of the receiver that is, field by field, a
  row of \<open>other\<close>, and returns both tables after the call.
\<close>

definition removeMappings :: "MappingSetDataFrame \<Rightarrow> MappingSetDataFrame
    \<Rightarrow> MappingSetDataFrame \<times> MappingSetDataFrame" where
  "removeMappings self other =
     (self\<lparr>df := filter (\<lambda>r. r \<notin> set (df other)) (df self)\<rparr>, other)"

section \<open>Example inputs\<close>

definition example_context :: "json dict" where
  "example_context =
     [(''owl'', JStr ''http://www.w3.org/2002/07/owl#''),
      (''rdf'', JObj [(''@id'', JStr ''http://www.w3.org/1999/02/22-rdf-syntax-ns#'')]),
      (''skos'', JStr ''http://www.w3.org/2004/02/skos/core#''),
      (''dcterms'', JObj [(''@id'', JStr ''http://purl.org/dc/terms/''),
                          (''@prefix'', JBool True)]),
      (''subject_id'', JObj [(''@id'', JStr ''owl:annotatedSource''),
                             (''@type'', JStr ''@id'')])]"


definition example_prefix_map :: "string dict" where
  "example_prefix_map =
     [(''ex'', ''http://example.org/''), (''skos'', ''http://example.org/skos#'')]"

definition example_row :: "string \<Rightarrow> string \<Rightarrow> Mapping" where
  "example_row s ob =
     \<lparr>subject_id = s, predicate_id = ''skos:exactMatch'', object_id = ob,
      other_fields = [(''mapping_justification'', ''semapv:LexicalMatching'')]\<rparr>"

definition example_table :: MappingSetDataFrame where
  "example_table =
     \<lparr>df = [example_row ''a:1'' ''b:1'', example_row ''a:2'' ''http://example.org/b2''],
      prefixmap =
        [(''a'', ''http://example.org/a/''), (''x1'', ''http://example.org/x1/''),
         (''sssom'', ''https://w3id.org/sssom/''),
         (''owl'', ''http://www.w3.org/2002/07/owl#''),
         (''rdf'', ''http://www.w3.org/1999/02/22-rdf-syntax-ns#''),
         (''y1'', ''http://example.org/y1/''),
         (''rdfs'', ''http://www.w3.org/2000/01/rdf-schema#''),
         (''skos'', ''http://www.w3.org/2004/02/skos/core#''),
         (''b'', ''http://example.org/b/''), (''z1'', ''http://example.org/z1/'')],
      metadata' = None\<rparr>"

text \<open>The same table with one more row, whose subject has a prefix the map lacks.\<close>

definition example_table_undefined :: MappingSetDataFrame where
  "example_table_undefined =
     example_table\<lparr>df := df example_table @ [example_row ''c:1'' ''a:3'']\<rparr>"


definition example_unknown_uri :: "string \<Rightarrow> string" where
  "example_unknown_uri p = ''http://example.org/unknown/'' @ p"

text \<open>
  A table that holds one row twice, a table that holds that row once, and a table that
  holds it twice before another row.
\<close>

definition example_table_twice :: MappingSetDataFrame where
  "example_table_twice =
     example_table\<lparr>df := [example_row ''a:1'' ''b:1'', example_row ''a:1'' ''b:1'']\<rparr>"

definition example_table_once :: MappingSetDataFrame where
  "example_table_once = example_table\<lparr>df := [example_row ''a:1'' ''b:1'']\<rparr>"

definition example_table_thrice :: MappingSetDataFrame where
  "example_table_thrice =
     example_table\<lparr>df := [example_row ''a:1'' ''b:1'', example_row ''a:1'' ''b:1'',
                          example_row ''a:2'' ''b:2'']\<rparr>"

section \<open>Facts about dictionaries\<close>

lemma map_of_dict_set: "map_of (dict_set d k v) k' = (if k' = k then Some v else map_of d k')"
  by (simp add: dict_set_def update_conv')

lemma dict_keys_dict_set:
  "set (dict_keys (dict_set d k v)) = insert k (set (dict_keys d))"
  by (auto simp add: dict_set_def dict_keys_def update_keys)

lemma dict_contains_map_of: "dict_contains d k \<longleftrightarrow> map_of d k \<noteq> None"
  by (simp add: dict_contains_def dict_keys_def map_of_eq_None_iff)

section \<open>get_built_in_prefix_map\<close>

lemma map_of_built_in_step:
  "map_of (built_in_step contxt key pm) k =
     (if k = key \<and> key \<in> set SSSOM_BUILT_IN_PREFIXES then
        (case map_of contxt key of Some (JStr v) \<Rightarrow> Some v | _ \<Rightarrow> map_of pm k)
      else map_of pm k)"
  by (simp add: built_in_step_def map_of_dict_set split: option.split json.split)

lemma map_of_built_in_loop:
  "map_of (built_in_loop contxt keys pm) k =
     (if k \<in> set keys \<and> k \<in> set SSSOM_BUILT_IN_PREFIXES then
        (case map_of contxt k of Some (JStr v) \<Rightarrow> Some v | _ \<Rightarrow> map_of pm k)
      else map_of pm k)"
proof (induction keys arbitrary: pm)
  case Nil
  show ?case by simp
next
  case (Cons key keys)
  show ?case
    by (auto simp add: Cons.IH map_of_built_in_step split: option.split json.split)
qed

lemma map_of_get_built_in_prefix_map:
  "map_of (get_built_in_prefix_map contxt) k =
     (if k \<in> set SSSOM_BUILT_IN_PREFIXES then
        (case map_of contxt k of Some (JStr v) \<Rightarrow> Some v | _ \<Rightarrow> None)
      else None)"
  by (auto simp add: get_built_in_prefix_map_def map_of_built_in_loop dict_keys_def
      domIff dom_map_of_conv_image_fst [symmetric] split: option.split json.split)

lemma keys_get_built_in_prefix_map:
  "k \<in> set (dict_keys (get_built_in_prefix_map contxt)) \<longleftrightarrow>
     k \<in> set SSSOM_BUILT_IN_PREFIXES \<and> (\<exists>v. map_of contxt k = Some (JStr v))"
proof -
  have "k \<in> set (dict_keys (get_built_in_prefix_map contxt)) \<longleftrightarrow>
      map_of (get_built_in_prefix_map contxt) k \<noteq> None"
    using dict_contains_map_of [of "get_built_in_prefix_map contxt" k]
    by (simp add: dict_contains_def)
  then show ?thesis
    by (simp add: map_of_get_built_in_prefix_map split: option.split json.split)
qed

text \<open>
  Claim C9. \<open>get_built_in_prefix_map\<close> binds reserved names only: every key of its result
  is one of \<open>sssom\<close>, \<open>owl\<close>, \<open>rdf\<close>, \<open>rdfs\<close>, \<open>skos\<close>. A key whose entry in the
  context is a JSON object is not bound in the result, so the result need not bind all five
  reserved names: some context leaves one of them out.
\<close>

theorem get_built_in_prefix_map_keys:
  "set (dict_keys (get_built_in_prefix_map contxt)) \<subseteq> set SSSOM_BUILT_IN_PREFIXES
   \<and> (\<forall>k obj. map_of contxt k = Some (JObj obj)
         \<longrightarrow> \<not> dict_contains (get_built_in_prefix_map contxt) k)
   \<and> (\<exists>c. \<not> set SSSOM_BUILT_IN_PREFIXES \<subseteq> set (dict_keys (get_built_in_prefix_map c)))"
proof (intro conjI allI impI)
  show "set (dict_keys (get_built_in_prefix_map contxt)) \<subseteq> set SSSOM_BUILT_IN_PREFIXES"
    using keys_get_built_in_prefix_map by blast
next
  fix k obj
  assume "map_of contxt k = Some (JObj obj)"
  then show "\<not> dict_contains (get_built_in_prefix_map contxt) k"
    by (simp add: dict_contains_def keys_get_built_in_prefix_map)
next
  have "''rdf'' \<notin> set (dict_keys (get_built_in_prefix_map [(''rdf'', JObj [])]))"
    by (simp add: keys_get_built_in_prefix_map)
  moreover have "''rdf'' \<in> set SSSOM_BUILT_IN_PREFIXES"
    by (simp add: SSSOM_BUILT_IN_PREFIXES_def)
  ultimately show "\<exists>c. \<not> set SSSOM_BUILT_IN_PREFIXES \<subseteq> set (dict_keys (get_built_in_prefix_map c))"
    by blast
qed

theorem get_built_in_prefix_map_keys_witness:
  "set (dict_keys (get_built_in_prefix_map example_context)) = {''owl'', ''skos''}
   \<and> map_of example_context ''rdf''
       = Some (JObj [(''@id'', JStr ''http://www.w3.org/1999/02/22-rdf-syntax-ns#'')])
   \<and> \<not> dict_contains (get_built_in_prefix_map example_context) ''rdf''"
  using get_built_in_prefix_map_keys [of example_context]
  by (auto simp add: example_context_def get_built_in_prefix_map_def dict_keys_def
      built_in_step_def SSSOM_BUILT_IN_PREFIXES_def dict_set_def dict_contains_def)

section \<open>add_built_in_prefixes_to_prefix_map\<close>

lemma map_of_add_loop:
  "map_of (fst (add_loop items pm log)) k =
     (case map_of pm k of Some u \<Rightarrow> Some u | None \<Rightarrow> map_of items k)"
proof (induction items arbitrary: pm log k)
  case Nil
  show ?case by (simp split: option.split)
next
  case (Cons item items)
  obtain k' v where item: "item = (k', v)" by (cases item)
  show ?case
    by (auto simp add: item Cons.IH map_of_dict_set split: option.split)
qed

lemma add_loop_log_mono: "x \<in> set log \<Longrightarrow> x \<in> set (snd (add_loop items pm log))"
proof (induction items arbitrary: pm log)
  case Nil
  then show ?case by simp
next
  case (Cons item items)
  obtain k' v where item: "item = (k', v)" by (cases item)
  show ?case
    using Cons.prems by (auto simp add: item split: option.split intro: Cons.IH)
qed

lemma add_loop_warns:
  "(k, v) \<in> set items \<Longrightarrow> map_of pm k = Some u \<Longrightarrow> u \<noteq> v
     \<Longrightarrow> BuiltInDiffers k u v \<in> set (snd (add_loop items pm log))"
proof (induction items arbitrary: pm log)
  case Nil
  then show ?case by simp
next
  case (Cons item items)
  obtain k' v' where item: "item = (k', v')" by (cases item)
  show ?case
  proof (cases "item = (k, v)")
    case True
    then have "BuiltInDiffers k u v \<in> set (log @ [BuiltInDiffers k u v])" by simp
    then have "BuiltInDiffers k u v \<in> set (snd (add_loop items pm (log @ [BuiltInDiffers k u v])))"
      by (rule add_loop_log_mono)
    with True Cons.prems show ?thesis by simp
  next
    case False
    with Cons.prems have mem: "(k, v) \<in> set items" by simp
    have kept: "map_of (dict_set pm k' v') k = Some u" if "map_of pm k' = None"
      using that Cons.prems(2) by (auto simp add: map_of_dict_set)
    show ?thesis
      using Cons.IH [OF mem kept Cons.prems(3)] Cons.IH [OF mem Cons.prems(2) Cons.prems(3)]
      by (simp add: item split: option.split)
  qed
qed

lemma add_loop_unchanged:
  "\<forall>k \<in> set (dict_keys items). dict_contains pm k \<Longrightarrow> fst (add_loop items pm log) = pm"
proof (induction items arbitrary: log)
  case Nil
  show ?case by simp
next
  case (Cons item items)
  obtain k' v where item: "item = (k', v)" by (cases item)
  from Cons.prems have "map_of pm k' \<noteq> None"
    by (simp add: item dict_keys_def dict_contains_map_of)
  moreover from Cons.prems have "\<forall>k \<in> set (dict_keys items). dict_contains pm k"
    by (simp add: dict_keys_def)
  ultimately show ?case
    using Cons.IH by (auto simp add: item)
qed

lemma add_loop_keys:
  "dict_contains (fst (add_loop items pm log)) k \<longleftrightarrow> dict_contains pm k \<or> dict_contains items k"
  by (simp add: dict_contains_map_of map_of_add_loop split: option.split)

lemma add_loop_not_empty: "pm \<noteq> [] \<Longrightarrow> fst (add_loop items pm log) \<noteq> []"
proof -
  assume "pm \<noteq> []"
  then obtain k v rest where "pm = (k, v) # rest" by (cases pm) auto
  then have "dict_contains pm k" by (simp add: dict_contains_def dict_keys_def)
  then have "dict_contains (fst (add_loop items pm log)) k" by (simp add: add_loop_keys)
  then show ?thesis by (auto simp add: dict_contains_def dict_keys_def)
qed

lemma example_built_in_prefix_map:
  "get_built_in_prefix_map example_context =
     [(''owl'', ''http://www.w3.org/2002/07/owl#''),
      (''skos'', ''http://www.w3.org/2004/02/skos/core#'')]"
  by (simp add: example_context_def get_built_in_prefix_map_def dict_keys_def
      built_in_step_def SSSOM_BUILT_IN_PREFIXES_def dict_set_def)

lemma example_add_built_in_prefixes:
  "add_built_in_prefixes_to_prefix_map example_context (Some example_prefix_map) =
     ([(''ex'', ''http://example.org/''), (''skos'', ''http://example.org/skos#''),
       (''owl'', ''http://www.w3.org/2002/07/owl#'')],
      [BuiltInDiffers ''skos'' ''http://example.org/skos#''
         ''http://www.w3.org/2004/02/skos/core#''])"
  by (simp add: add_built_in_prefixes_to_prefix_map_def example_built_in_prefix_map
      example_prefix_map_def dict_set_def)

text \<open>
  Claim C1. For a non-empty user prefix map, the result of
  \<open>add_built_in_prefixes_to_prefix_map\<close> binds every prefix of the built-in map that the
  user map lacks to its built-in URI; a prefix of the built-in map that the user map binds
  to a different URI keeps the user's URI, and a warning naming the prefix, the kept URI
  and the default is logged; every binding of the user map is in the result; nothing else
  is bound. For an absent or empty user map the result is the built-in map, with no warning.
\<close>

theorem add_built_in_prefixes_result:
  "add_built_in_prefixes_to_prefix_map contxt None = (get_built_in_prefix_map contxt, [])
   \<and> add_built_in_prefixes_to_prefix_map contxt (Some []) = (get_built_in_prefix_map contxt, [])
   \<and> (pm \<noteq> [] \<longrightarrow>
        (\<forall>k v. map_of (get_built_in_prefix_map contxt) k = Some v \<and> map_of pm k = None
           \<longrightarrow> map_of (fst (add_built_in_prefixes_to_prefix_map contxt (Some pm))) k = Some v)
      \<and> (\<forall>k u v. map_of (get_built_in_prefix_map contxt) k = Some v \<and> map_of pm k = Some u
             \<and> u \<noteq> v
           \<longrightarrow> map_of (fst (add_built_in_prefixes_to_prefix_map contxt (Some pm))) k = Some u
             \<and> BuiltInDiffers k u v
                 \<in> set (snd (add_built_in_prefixes_to_prefix_map contxt (Some pm))))
      \<and> (\<forall>k u. map_of pm k = Some u
           \<longrightarrow> map_of (fst (add_built_in_prefixes_to_prefix_map contxt (Some pm))) k = Some u)
      \<and> (\<forall>k. map_of (get_built_in_prefix_map contxt) k = None \<and> map_of pm k = None
           \<longrightarrow> map_of (fst (add_built_in_prefixes_to_prefix_map contxt (Some pm))) k = None))"
proof (intro conjI impI allI)
  show "add_built_in_prefixes_to_prefix_map contxt None = (get_built_in_prefix_map contxt, [])"
    by (simp add: add_built_in_prefixes_to_prefix_map_def Let_def)
  show "add_built_in_prefixes_to_prefix_map contxt (Some []) = (get_built_in_prefix_map contxt, [])"
    by (simp add: add_built_in_prefixes_to_prefix_map_def Let_def)
next
  fix k v
  assume "pm \<noteq> []" "map_of (get_built_in_prefix_map contxt) k = Some v \<and> map_of pm k = None"
  then show "map_of (fst (add_built_in_prefixes_to_prefix_map contxt (Some pm))) k = Some v"
    by (simp add: add_built_in_prefixes_to_prefix_map_def Let_def map_of_add_loop)
next
  fix k u v
  assume ne: "pm \<noteq> []"
    and h: "map_of (get_built_in_prefix_map contxt) k = Some v \<and> map_of pm k = Some u \<and> u \<noteq> v"
  then show "map_of (fst (add_built_in_prefixes_to_prefix_map contxt (Some pm))) k = Some u"
    by (simp add: add_built_in_prefixes_to_prefix_map_def Let_def map_of_add_loop)
  from h have "(k, v) \<in> set (get_built_in_prefix_map contxt)"
    by (simp add: map_of_SomeD)
  then have "BuiltInDiffers k u v \<in> set (snd (add_loop (get_built_in_prefix_map contxt) pm []))"
    using h by (simp add: add_loop_warns)
  then show "BuiltInDiffers k u v
      \<in> set (snd (add_built_in_prefixes_to_prefix_map contxt (Some pm)))"
    using ne by (simp add: add_built_in_prefixes_to_prefix_map_def Let_def)
next
  fix k u
  assume "pm \<noteq> []" "map_of pm k = Some u"
  then show "map_of (fst (add_built_in_prefixes_to_prefix_map contxt (Some pm))) k = Some u"
    by (simp add: add_built_in_prefixes_to_prefix_map_def Let_def map_of_add_loop)
next
  fix k
  assume "pm \<noteq> []" "map_of (get_built_in_prefix_map contxt) k = None \<and> map_of pm k = None"
  then show "map_of (fst (add_built_in_prefixes_to_prefix_map contxt (Some pm))) k = None"
    by (simp add: add_built_in_prefixes_to_prefix_map_def Let_def map_of_add_loop)
qed

theorem add_built_in_prefixes_result_witness:
  "example_prefix_map \<noteq> []
   \<and> map_of (get_built_in_prefix_map example_context) ''owl''
       = Some ''http://www.w3.org/2002/07/owl#''
   \<and> map_of example_prefix_map ''owl'' = None
   \<and> map_of (fst (add_built_in_prefixes_to_prefix_map example_context
         (Some example_prefix_map))) ''owl'' = Some ''http://www.w3.org/2002/07/owl#''
   \<and> map_of (get_built_in_prefix_map example_context) ''skos''
       = Some ''http://www.w3.org/2004/02/skos/core#''
   \<and> map_of example_prefix_map ''skos'' = Some ''http://example.org/skos#''
   \<and> map_of (fst (add_built_in_prefixes_to_prefix_map example_context
         (Some example_prefix_map))) ''skos'' = Some ''http://example.org/skos#''
   \<and> BuiltInDiffers ''skos'' ''http://example.org/skos#''
         ''http://www.w3.org/2004/02/skos/core#''
       \<in> set (snd (add_built_in_prefixes_to_prefix_map example_context
           (Some example_prefix_map)))
   \<and> map_of (fst (add_built_in_prefixes_to_prefix_map example_context
         (Some example_prefix_map))) ''ex'' = Some ''http://example.org/''"
  using add_built_in_prefixes_result [of example_context example_prefix_map]
  by (simp add: example_add_built_in_prefixes example_built_in_prefix_map)
    (simp add: example_prefix_map_def)

text \<open>
  Claim C7. \<open>add_built_in_prefixes_to_prefix_map\<close> is idempotent on the map it returns:
  applied to its own result, for any user map (absent, empty or not), it returns that
  result again.
\<close>

theorem add_built_in_prefixes_idempotent:
  "fst (add_built_in_prefixes_to_prefix_map contxt
          (Some (fst (add_built_in_prefixes_to_prefix_map contxt m))))
     = fst (add_built_in_prefixes_to_prefix_map contxt m)"
proof -
  let ?B = "get_built_in_prefix_map contxt"
  have self: "fst (add_loop ?B ?B []) = ?B"
    by (rule add_loop_unchanged) (simp add: dict_contains_def)
  have again: "fst (add_built_in_prefixes_to_prefix_map contxt (Some ?B)) = ?B"
    by (simp add: add_built_in_prefixes_to_prefix_map_def Let_def self)
  show ?thesis
  proof (cases "m = None \<or> m = Some []")
    case True
    then have "fst (add_built_in_prefixes_to_prefix_map contxt m) = ?B"
      by (auto simp add: add_built_in_prefixes_to_prefix_map_def Let_def)
    with again show ?thesis by simp
  next
    case False
    then obtain pm where m: "m = Some pm" and ne: "pm \<noteq> []" by auto
    let ?R = "fst (add_loop ?B pm [])"
    have R: "fst (add_built_in_prefixes_to_prefix_map contxt m) = ?R"
      using ne by (simp add: m add_built_in_prefixes_to_prefix_map_def Let_def)
    have "?R \<noteq> []" using ne by (rule add_loop_not_empty)
    moreover have "fst (add_loop ?B ?R []) = ?R"
      by (rule add_loop_unchanged) (simp add: add_loop_keys, simp add: dict_contains_def)
    ultimately show ?thesis
      by (simp add: R) (simp add: add_built_in_prefixes_to_prefix_map_def Let_def)
  qed
qed

subsection \<open>The dict objects\<close>

lemma add_loop_store_eq:
  "a < length s \<Longrightarrow>
     add_loop_store items a s log =
       (s[a := fst (add_loop items (s ! a) log)], snd (add_loop items (s ! a) log))"
proof (induction items arbitrary: s log)
  case Nil
  then show ?case by simp
next
  case (Cons item items)
  obtain k v where item: "item = (k, v)" by (cases item)
  show ?case
  proof (cases "map_of (s ! a) k")
    case None
    let ?s = "s[a := dict_set (s ! a) k v]"
    have len: "a < length ?s" using Cons.prems by simp
    have "add_loop_store items a ?s log =
        (?s[a := fst (add_loop items (?s ! a) log)], snd (add_loop items (?s ! a) log))"
      using len by (rule Cons.IH)
    with None Cons.prems show ?thesis by (simp add: item)
  next
    case (Some u)
    with Cons.prems show ?thesis by (simp add: item Cons.IH)
  qed
qed

lemma alloc_eq: "alloc s d = (length s, s @ [d])"
  by (simp add: alloc_def)

lemma add_built_in_prefixes_store_eq:
  "a < length s \<Longrightarrow>
     add_built_in_prefixes_to_prefix_map_store contxt (Some a) s =
       (if s ! a = [] then (length s, s @ [get_built_in_prefix_map contxt], [])
        else (a, (s @ [get_built_in_prefix_map contxt])
                   [a := fst (add_built_in_prefixes_to_prefix_map contxt (Some (s ! a)))],
              snd (add_built_in_prefixes_to_prefix_map contxt (Some (s ! a)))))"
  by (simp add: add_built_in_prefixes_to_prefix_map_store_def alloc_eq Let_def
      add_built_in_prefixes_to_prefix_map_def add_loop_store_eq nth_append)

lemma example_store_call:
  "add_built_in_prefixes_to_prefix_map_store example_context (Some 0) [example_prefix_map] =
     (0,
      [ [(''ex'', ''http://example.org/''), (''skos'', ''http://example.org/skos#''),
        (''owl'', ''http://www.w3.org/2002/07/owl#'')],
       [(''owl'', ''http://www.w3.org/2002/07/owl#''),
        (''skos'', ''http://www.w3.org/2004/02/skos/core#'')] ],
      [BuiltInDiffers ''skos'' ''http://example.org/skos#''
         ''http://www.w3.org/2004/02/skos/core#''])"
  by (simp add: add_built_in_prefixes_store_eq example_add_built_in_prefixes
      example_built_in_prefix_map)
    (simp add: example_prefix_map_def)

text \<open>
  Claim C2, amended. A call with the caller's dict at address \<open>a\<close> leaves every other dict
  of the store as it was, and changes or removes no binding of the caller's dict. The
  caller's dict is unchanged when it is empty or already binds every prefix of the built-in
  map. A non-empty dict is itself the object returned, and after the call it holds the
  result, so the built-in bindings it lacked have been written into it. For an empty or
  absent input the object returned is the new built-in map.
\<close>

theorem add_built_in_prefixes_store_frame:
  "a < length s \<Longrightarrow>
   add_built_in_prefixes_to_prefix_map_store contxt (Some a) s = (r, s', log) \<Longrightarrow>
     (\<forall>i < length s. i \<noteq> a \<longrightarrow> s' ! i = s ! i)
   \<and> (\<forall>k u. map_of (s ! a) k = Some u \<longrightarrow> map_of (s' ! a) k = Some u)
   \<and> (s ! a = [] \<or> (\<forall>k \<in> set (dict_keys (get_built_in_prefix_map contxt)).
          dict_contains (s ! a) k) \<longrightarrow> s' ! a = s ! a)
   \<and> (s ! a \<noteq> [] \<longrightarrow> r = a
        \<and> s' ! a = fst (add_built_in_prefixes_to_prefix_map contxt (Some (s ! a))))
   \<and> (s ! a = [] \<longrightarrow> r = length s \<and> s' ! r = get_built_in_prefix_map contxt)
   \<and> add_built_in_prefixes_to_prefix_map_store contxt None s
       = (length s, s @ [get_built_in_prefix_map contxt], [])"
proof -
  assume a: "a < length s"
    and res: "add_built_in_prefixes_to_prefix_map_store contxt (Some a) s = (r, s', log)"
  let ?B = "get_built_in_prefix_map contxt"
  let ?R = "fst (add_built_in_prefixes_to_prefix_map contxt (Some (s ! a)))"
  have none: "add_built_in_prefixes_to_prefix_map_store contxt None s = (length s, s @ [?B], [])"
    by (simp add: add_built_in_prefixes_to_prefix_map_store_def alloc_eq)
  show ?thesis
  proof (cases "s ! a = []")
    case True
    with a res have "r = length s" "s' = s @ [?B]"
      by (auto simp add: add_built_in_prefixes_store_eq)
    with a True none show ?thesis by (simp add: nth_append)
  next
    case False
    with a res have r: "r = a" and s': "s' = (s @ [?B])[a := ?R]"
      by (auto simp add: add_built_in_prefixes_store_eq)
    have Rdef: "?R = fst (add_loop ?B (s ! a) [])"
      using False by (simp add: add_built_in_prefixes_to_prefix_map_def Let_def)
    have at: "s' ! a = ?R" using a by (simp add: s')
    have others: "\<forall>i < length s. i \<noteq> a \<longrightarrow> s' ! i = s ! i"
      by (simp add: s' nth_append)
    have kept: "\<forall>k u. map_of (s ! a) k = Some u \<longrightarrow> map_of (s' ! a) k = Some u"
      by (simp add: at Rdef map_of_add_loop)
    have same: "(\<forall>k \<in> set (dict_keys ?B). dict_contains (s ! a) k) \<longrightarrow> s' ! a = s ! a"
      by (simp add: at Rdef add_loop_unchanged)
    from False r at others kept same none show ?thesis by simp
  qed
qed

theorem add_built_in_prefixes_store_frame_witness:
  "(0::nat) < length [example_prefix_map]
   \<and> [example_prefix_map] ! 0 \<noteq> []
   \<and> fst (add_built_in_prefixes_to_prefix_map_store example_context (Some 0)
         [example_prefix_map]) = 0
   \<and> map_of ([example_prefix_map] ! 0) ''skos'' = Some ''http://example.org/skos#''
   \<and> map_of (fst (snd (add_built_in_prefixes_to_prefix_map_store example_context (Some 0)
         [example_prefix_map])) ! 0) ''skos'' = Some ''http://example.org/skos#''
   \<and> fst (snd (add_built_in_prefixes_to_prefix_map_store example_context (Some 0)
         [example_prefix_map])) ! 0
       = fst (add_built_in_prefixes_to_prefix_map example_context (Some example_prefix_map))"
  using add_built_in_prefixes_store_frame [of 0 "[example_prefix_map]" example_context 0
      "[ [(''ex'', ''http://example.org/''), (''skos'', ''http://example.org/skos#''),
        (''owl'', ''http://www.w3.org/2002/07/owl#'')],
       [(''owl'', ''http://www.w3.org/2002/07/owl#''),
        (''skos'', ''http://www.w3.org/2004/02/skos/core#'')] ]"
      "[BuiltInDiffers ''skos'' ''http://example.org/skos#''
         ''http://www.w3.org/2004/02/skos/core#'']"]
  by (simp add: example_store_call example_add_built_in_prefixes)
    (simp add: example_prefix_map_def)

text \<open>
  As first worded, with the input left unchanged by every call, the property fails: the
  dict \<open>example_prefix_map\<close> lacks \<open>owl\<close>, and after the call it holds the \<open>owl\<close> binding.
\<close>

theorem add_built_in_prefixes_mutates_input:
  "fst (snd (add_built_in_prefixes_to_prefix_map_store example_context (Some 0)
       [example_prefix_map])) ! 0
     \<noteq> [example_prefix_map] ! 0"
  by (simp add: example_store_call) (simp add: example_prefix_map_def)

section \<open>get_default_metadata\<close>












text \<open>
  Claim C10. Whatever the two contexts hold, the \<open>metadata\<close> component of the value that
  \<open>get_default_metadata\<close> returns is the empty mapping; only \<open>prefix_map\<close> is filled.
\<close>

theorem get_default_metadata_metadata_empty:
  "metadata (fst (get_default_metadata contxt contxt_external)) = []"
  by (simp add: get_default_metadata_def Let_def)

section \<open>EntityPair\<close>

lemma hash_tuple_swap:
  "hash_tuple \<lparr>subject_entity = a, object_entity = b\<rparr>
     = hash_tuple \<lparr>subject_entity = b, object_entity = a\<rparr>"
  by (auto simp add: hash_tuple_def)

lemma EntityPair_hash_swap:
  "EntityPair_hash py_hash \<lparr>subject_entity = a, object_entity = b\<rparr>
     = EntityPair_hash py_hash \<lparr>subject_entity = b, object_entity = a\<rparr>"
  by (simp add: EntityPair_hash_def hash_tuple_swap)

lemma EntityPair_eq_swap:
  "EntityPair_eq \<lparr>subject_entity = a, object_entity = b\<rparr>
     \<lparr>subject_entity = b, object_entity = a\<rparr> \<longleftrightarrow> a = b"
  by (auto simp add: EntityPair_eq_def)

text \<open>
  Claim C3. The pairs \<open>(a, b)\<close> and \<open>(b, a)\<close> hash equal, since \<open>__hash__\<close> orders the two
  identifiers, but the generated \<open>__eq__\<close> compares the fields in order: on the entities
  \<open>a:1\<close> and \<open>b:1\<close> the two pairs have the same hash tuple and do not compare equal, against
  the note \<open>(e1,e2) == (e2,e1)\<close> in the docstring of the class.
\<close>

theorem EntityPair_swapped_not_equal:
  "hash_tuple \<lparr>subject_entity = \<lparr>id' = ''a:1''\<rparr>, object_entity = \<lparr>id' = ''b:1''\<rparr>\<rparr>
     = hash_tuple \<lparr>subject_entity = \<lparr>id' = ''b:1''\<rparr>, object_entity = \<lparr>id' = ''a:1''\<rparr>\<rparr>
   \<and> \<not> EntityPair_eq
         \<lparr>subject_entity = \<lparr>id' = ''a:1''\<rparr>, object_entity = \<lparr>id' = ''b:1''\<rparr>\<rparr>
         \<lparr>subject_entity = \<lparr>id' = ''b:1''\<rparr>, object_entity = \<lparr>id' = ''a:1''\<rparr>\<rparr>"
  by (simp add: hash_tuple_def EntityPair_eq_def)

section \<open>cleanPrefixMap\<close>







lemma example_usedPrefixes: "usedPrefixes example_table = [''b'', ''a'', ''skos'']"
  by (simp add: usedPrefixes_def example_table_def example_row_def curie_prefix_def
      is_absolute_uri_def List.map_filter_simps)

lemma example_undefined_usedPrefixes:
  "usedPrefixes example_table_undefined = [''b'', ''c'', ''skos'', ''a'']"
  by (simp add: usedPrefixes_def example_table_undefined_def example_table_def
      example_row_def curie_prefix_def is_absolute_uri_def List.map_filter_simps)


lemma example_undefined_keys:
  "dict_keys (prefixmap example_table_undefined) =
     [''a'', ''x1'', ''sssom'', ''owl'', ''rdf'', ''y1'', ''rdfs'', ''skos'', ''b'', ''z1'']"
  by (simp add: dict_keys_def example_table_undefined_def example_table_def)





text \<open>
  Claim C5. When an identifier column references a prefix that the table's prefix map does
  not bind, \<open>cleanPrefixMap\<close> with \<open>strict = True\<close> raises \<open>UndefinedPrefixError\<close>, which names
  the referenced prefixes that are not bound (that prefix among them), and the table after
  the call is the table before it: the same prefix map and the same rows.
\<close>

theorem cleanPrefixMap_strict_undefined_prefix:
  "p \<in> set (usedPrefixes t) \<Longrightarrow> \<not> dict_contains (prefixmap t) p \<Longrightarrow>
     cleanPrefixMap unknown_uri True t =
       (Some (UndefinedPrefixError
          (filter (\<lambda>q. \<not> dict_contains (prefixmap t) q) (usedPrefixes t))), t)
     \<and> p \<in> set (filter (\<lambda>q. \<not> dict_contains (prefixmap t) q) (usedPrefixes t))
     \<and> prefixmap (snd (cleanPrefixMap unknown_uri True t)) = prefixmap t
     \<and> df (snd (cleanPrefixMap unknown_uri True t)) = df t"
proof -
  assume p: "p \<in> set (usedPrefixes t)" "\<not> dict_contains (prefixmap t) p"
  then have mem: "p \<in> set (filter (\<lambda>q. \<not> dict_contains (prefixmap t) q) (usedPrefixes t))"
    by simp
  then have "filter (\<lambda>q. \<not> dict_contains (prefixmap t) q) (usedPrefixes t) \<noteq> []"
    by (metis empty_iff empty_set)
  then have "cleanPrefixMap unknown_uri True t =
      (Some (UndefinedPrefixError
         (filter (\<lambda>q. \<not> dict_contains (prefixmap t) q) (usedPrefixes t))), t)"
    by (simp add: cleanPrefixMap_def pruneToUsed_def Let_def)
  with mem show ?thesis by simp
qed

theorem cleanPrefixMap_strict_undefined_prefix_witness:
  "''c'' \<in> set (usedPrefixes example_table_undefined)
   \<and> \<not> dict_contains (prefixmap example_table_undefined) ''c''
   \<and> cleanPrefixMap example_unknown_uri True example_table_undefined
       = (Some (UndefinedPrefixError [''c'']), example_table_undefined)"
proof -
  have u: "''c'' \<in> set (usedPrefixes example_table_undefined)"
    by (simp add: example_undefined_usedPrefixes)
  have n: "\<not> dict_contains (prefixmap example_table_undefined) ''c''"
    by (simp add: dict_contains_def example_undefined_keys)
  have m: "filter (\<lambda>q. \<not> dict_contains (prefixmap example_table_undefined) q)
      (usedPrefixes example_table_undefined) = [''c'']"
    by (simp add: example_undefined_usedPrefixes dict_contains_def example_undefined_keys)
  show ?thesis
    using cleanPrefixMap_strict_undefined_prefix [OF u n, of example_unknown_uri] u n
    by (simp add: m)
qed

section \<open>removeMappings\<close>

lemma length_filter_split:
  "length (filter (\<lambda>r. r \<notin> set ys) xs) + length (filter (\<lambda>r. r \<in> set ys) xs) = length xs"
  using sum_length_filter_compl [of "\<lambda>r. r \<notin> set ys" xs] by simp

lemma length_filter_not_in_iff:
  "int (length (filter (\<lambda>r. r \<notin> set ys) xs)) = int (length xs) - int (length ys)
     \<longleftrightarrow> length (filter (\<lambda>r. r \<in> set ys) xs) = length ys"
  using length_filter_split [of ys xs] by linarith

lemma length_filter_not_in_selection:
  assumes "ys = filter P xs"
  shows "length (filter (\<lambda>r. r \<notin> set ys) xs) = length xs - length ys"
proof -
  have "filter (\<lambda>r. r \<in> set ys) xs = ys"
    unfolding assms by (simp cong: filter_cong)
  then have "length (filter (\<lambda>r. r \<in> set ys) xs) = length ys" by simp
  with length_filter_split [of ys xs] show ?thesis by simp
qed

lemma length_filter_not_in:
  assumes "distinct xs" "distinct ys" "set ys \<subseteq> set xs"
  shows "length (filter (\<lambda>r. r \<notin> set ys) xs) = length xs - length ys"
proof -
  have "length (filter (\<lambda>r. r \<in> set ys) xs) = card {r \<in> set xs. r \<in> set ys}"
    using assms(1) by (simp add: distinct_length_filter Int_def conj_commute)
  also have "{r \<in> set xs. r \<in> set ys} = set ys" using assms(3) by blast
  also have "card (set ys) = length ys" using assms(2) by (rule distinct_card)
  finally have "length (filter (\<lambda>r. r \<in> set ys) xs) = length ys" .
  with length_filter_split [of ys xs] show ?thesis by simp
qed

text \<open>
  Claim C8, amended. \<open>removeMappings\<close> leaves in the receiver, in their order, exactly the
  rows that are not, field by field, a row of the other table; it changes neither the
  receiver's prefix map nor the other table. The receiver is left with \<open>len(A) - len(B)\<close>
  rows exactly when the rows of \<open>A\<close> that equal some row of \<open>B\<close> are \<open>len(B)\<close> in number:
  so it is when \<open>B\<close> holds the rows of \<open>A\<close> that pass some test, as in \<open>test_remove_mappings\<close>,
  and when every row of \<open>B\<close> occurs in \<open>A\<close> and neither table holds a row twice.
\<close>

theorem removeMappings_row_difference:
  "set (df (fst (removeMappings A B))) = set (df A) - set (df B)
   \<and> df (fst (removeMappings A B)) = filter (\<lambda>r. r \<notin> set (df B)) (df A)
   \<and> prefixmap (fst (removeMappings A B)) = prefixmap A
   \<and> snd (removeMappings A B) = B
   \<and> (int (length (df (fst (removeMappings A B)))) = int (length (df A)) - int (length (df B))
        \<longleftrightarrow> length (filter (\<lambda>r. r \<in> set (df B)) (df A)) = length (df B))
   \<and> (df B = filter P (df A)
        \<longrightarrow> length (df (fst (removeMappings A B))) = length (df A) - length (df B))
   \<and> (distinct (df A) \<and> distinct (df B) \<and> set (df B) \<subseteq> set (df A)
        \<longrightarrow> length (df (fst (removeMappings A B))) = length (df A) - length (df B))"
proof -
  have rows: "df (fst (removeMappings A B)) = filter (\<lambda>r. r \<notin> set (df B)) (df A)"
    by (simp add: removeMappings_def)
  have "set (df (fst (removeMappings A B))) = set (df A) - set (df B)"
    by (auto simp add: rows)
  moreover have "prefixmap (fst (removeMappings A B)) = prefixmap A"
    "snd (removeMappings A B) = B"
    by (simp_all add: removeMappings_def)
  moreover have "int (length (df (fst (removeMappings A B))))
      = int (length (df A)) - int (length (df B))
      \<longleftrightarrow> length (filter (\<lambda>r. r \<in> set (df B)) (df A)) = length (df B)"
    unfolding rows by (rule length_filter_not_in_iff)
  moreover have "df B = filter P (df A)
      \<longrightarrow> length (df (fst (removeMappings A B))) = length (df A) - length (df B)"
    unfolding rows using length_filter_not_in_selection [of "df B" P "df A"] by blast
  moreover have "distinct (df A) \<and> distinct (df B) \<and> set (df B) \<subseteq> set (df A)
      \<longrightarrow> length (df (fst (removeMappings A B))) = length (df A) - length (df B)"
    unfolding rows using length_filter_not_in [of "df A" "df B"] by blast
  ultimately show ?thesis using rows by blast
qed

lemma example_rows_differ: "example_row ''a:1'' ''b:1'' \<noteq> example_row ''a:2'' ''b:2''"
  by (simp add: example_row_def)

theorem removeMappings_row_difference_witness:
  "df example_table_twice
       = filter (\<lambda>r. r = example_row ''a:1'' ''b:1'') (df example_table_thrice)
   \<and> \<not> distinct (df example_table_thrice)
   \<and> length (df example_table_thrice) = 3 \<and> length (df example_table_twice) = 2
   \<and> length (filter (\<lambda>r. r \<in> set (df example_table_twice)) (df example_table_thrice)) = 2
   \<and> length (df (fst (removeMappings example_table_thrice example_table_twice))) = 1
   \<and> snd (removeMappings example_table_thrice example_table_twice) = example_table_twice"
  using removeMappings_row_difference [of example_table_thrice example_table_twice
      "\<lambda>r. r = example_row ''a:1'' ''b:1''"] example_rows_differ
  by (auto simp add: example_table_thrice_def example_table_twice_def)

text \<open>
  As first worded, for every \<open>B\<close> whose rows all occur in \<open>A\<close>, the count fails: a table
  that holds one row twice, less a table that holds that row once, keeps no row, not
  \<open>2 - 1\<close>.
\<close>

theorem removeMappings_loses_count_on_duplicates:
  "set (df example_table_once) \<subseteq> set (df example_table_twice)
   \<and> length (df (fst (removeMappings example_table_twice example_table_once)))
       \<noteq> length (df example_table_twice) - length (df example_table_once)"
  by (simp add: removeMappings_def example_table_twice_def example_table_once_def)

end
